theory Spec2Isabelle
  imports Main
begin

section \<open>Data model\<close>

text \<open>
  The robot lives on a grid of terrain cells. The source keeps cells, facings and
  commands as JavaScript strings. Cells stay strings here; the four facings and the six
  commands are enumerations, because every facing and every command that reaches
  \<open>Robot\<close> has passed \<open>validateInput\<close> or comes from the fixed strategy table (the
  \<open>default: throw\<close> branches of \<open>executeCommand\<close> and \<open>getBatteryConsumption\<close>
  are therefore not reachable and have no counterpart). Battery and coordinates are
  JavaScript numbers holding integers; they are \<open>int\<close> here, so fractions and
  \<open>NaN\<close> are outside the model.
\<close>

datatype orientation = North | East | South | West

datatype command = F | B | L | R | S | E

type_synonym terrain = "string list list"

record robot =
  battery :: int
  pos_x :: int
  pos_y :: int
  facing :: orientation
  visitedCells :: "(int \<times> int) list"
  samplesCollected :: "string list"
  currentBackoffStrategy :: nat

record simulation_result =
  VisitedCells :: "(int \<times> int) list"
  SamplesCollected :: "string list"
  Battery :: int
  FinalPosition :: "(int \<times> int) \<times> orientation"

section \<open>Terrain queries\<close>

text \<open>\<open>terrain.length\<close> and \<open>terrain[0].length\<close>. The second is only read by the source
  after \<open>y < terrain.length\<close> has been established, or on a validated terrain.\<close>

definition rowCount :: "terrain \<Rightarrow> int" where
  "rowCount t = int (length t)"

definition colCount :: "terrain \<Rightarrow> int" where
  "colCount t = (case t of [] \<Rightarrow> 0 | r # _ \<Rightarrow> int (length r))"

text \<open>\<open>terrain[y][x]\<close> for \<open>0 \<le> y < terrain.length\<close>; \<open>None\<close> is JavaScript's
  \<open>undefined\<close>, read from a row that is shorter than the first one.\<close>

definition cellAt :: "terrain \<Rightarrow> int \<Rightarrow> int \<Rightarrow> string option" where
  "cellAt t x y =
     (if 0 \<le> y \<and> y < rowCount t \<and> 0 \<le> x \<and> nat x < length (t ! nat y)
      then Some (t ! nat y ! nat x) else None)"

definition isObstacle :: "terrain \<Rightarrow> int \<Rightarrow> int \<Rightarrow> bool" where
  "isObstacle t x y =
     (if y < 0 \<or> y \<ge> rowCount t \<or> x < 0 \<or> x \<ge> colCount t then True
      else cellAt t x y = Some ''Obs'')"

definition getTerrainType :: "terrain \<Rightarrow> int \<Rightarrow> int \<Rightarrow> string option" where
  "getTerrainType t x y =
     (if y < 0 \<or> y \<ge> rowCount t \<or> x < 0 \<or> x \<ge> colCount t then None
      else cellAt t x y)"

section \<open>Robot\<close>

definition newRobot :: "int \<Rightarrow> int \<Rightarrow> int \<Rightarrow> orientation \<Rightarrow> robot" where
  "newRobot b x y f =
     \<lparr> battery = b, pos_x = x, pos_y = y, facing = f,
       visitedCells = [(x, y)], samplesCollected = [],
       currentBackoffStrategy = 0 \<rparr>"

definition backoffStrategies :: "command list list" where
  "backoffStrategies =
     [[E, R, F],
      [E, L, F],
      [E, L, L, F],
      [E, B, R, F],
      [E, B, B, L, F],
      [E, F, F],
      [E, F, L, F, L, F]]"

fun getBatteryConsumption :: "command \<Rightarrow> int" where
  "getBatteryConsumption F = 3"
| "getBatteryConsumption B = 3"
| "getBatteryConsumption L = 2"
| "getBatteryConsumption R = 2"
| "getBatteryConsumption S = 8"
| "getBatteryConsumption E = 1"

text \<open>\<open>getNextPosition(command)\<close>: \<open>direction\<close> is 1 for \<open>F\<close> and -1 for anything else.\<close>

definition getNextPosition :: "command \<Rightarrow> robot \<Rightarrow> int \<times> int" where
  "getNextPosition c s =
     (let direction = (if c = F then 1 else - 1) in
      case facing s of
        North \<Rightarrow> (pos_x s, pos_y s - direction)
      | South \<Rightarrow> (pos_x s, pos_y s + direction)
      | East \<Rightarrow> (pos_x s + direction, pos_y s)
      | West \<Rightarrow> (pos_x s - direction, pos_y s))"

definition addVisitedCell :: "int \<Rightarrow> int \<Rightarrow> robot \<Rightarrow> robot" where
  "addVisitedCell x y s =
     (if list_ex (\<lambda>cell. fst cell = x \<and> snd cell = y) (visitedCells s) then s
      else s\<lparr>visitedCells := visitedCells s @ [(x, y)]\<rparr>)"

fun turnLeftFacing :: "orientation \<Rightarrow> orientation" where
  "turnLeftFacing North = West"
| "turnLeftFacing West = South"
| "turnLeftFacing South = East"
| "turnLeftFacing East = North"

fun turnRightFacing :: "orientation \<Rightarrow> orientation" where
  "turnRightFacing North = East"
| "turnRightFacing East = South"
| "turnRightFacing South = West"
| "turnRightFacing West = North"

definition turnLeft :: "robot \<Rightarrow> bool \<times> robot" where
  "turnLeft s = (True, s\<lparr>battery := battery s - 2, facing := turnLeftFacing (facing s)\<rparr>)"

definition turnRight :: "robot \<Rightarrow> bool \<times> robot" where
  "turnRight s = (True, s\<lparr>battery := battery s - 2, facing := turnRightFacing (facing s)\<rparr>)"

text \<open>\<open>takeSample\<close>: the cost is paid first; an empty string is falsy in JavaScript, so it
  is not collected either.\<close>

definition takeSample :: "terrain \<Rightarrow> robot \<Rightarrow> bool \<times> robot" where
  "takeSample t s =
     (let s1 = s\<lparr>battery := battery s - 8\<rparr> in
      case getTerrainType t (pos_x s1) (pos_y s1) of
        None \<Rightarrow> (True, s1)
      | Some terrainType \<Rightarrow>
          if terrainType \<noteq> [] \<and> terrainType \<noteq> ''Obs''
          then (True, s1\<lparr>samplesCollected := samplesCollected s1 @ [terrainType]\<rparr>)
          else (True, s1))"

definition extendSolarPanels :: "robot \<Rightarrow> bool \<times> robot" where
  "extendSolarPanels s =
     (let s1 = s\<lparr>battery := battery s - 1\<rparr> in (True, s1\<lparr>battery := battery s1 + 10\<rparr>))"

text \<open>The part of \<open>moveForward\<close>/\<open>moveBackward\<close> after the obstacle test.\<close>

definition moveTo :: "int \<times> int \<Rightarrow> robot \<Rightarrow> bool \<times> robot" where
  "moveTo nextPosition s =
     (let s1 = s\<lparr>battery := battery s - 3\<rparr>;
          s2 = s1\<lparr>pos_x := fst nextPosition, pos_y := snd nextPosition\<rparr>;
          s3 = addVisitedCell (fst nextPosition) (snd nextPosition) s2
      in (True, s3\<lparr>currentBackoffStrategy := 0\<rparr>))"

text \<open>
  \<open>executeCommand\<close>, \<open>moveForward\<close>, \<open>moveBackward\<close> and \<open>applyBackoffStrategy\<close> call
  each other, and the strategy index is reset by a successful move, so the recursion has
  no syntactic bound. The first argument is fuel: the depth of nested \<open>executeCommand\<close>
  calls still allowed. \<open>None\<close> means the fuel ran out; \<open>Some (ok, s)\<close> is the returned
  boolean and the robot after the call. \<open>runStrategy\<close> is the \<open>for\<close> loop of
  \<open>applyBackoffStrategy\<close>.
\<close>

function (sequential) executeCommand :: "nat \<Rightarrow> terrain \<Rightarrow> command \<Rightarrow> robot \<Rightarrow> (bool \<times> robot) option"
and moveForward :: "nat \<Rightarrow> terrain \<Rightarrow> robot \<Rightarrow> (bool \<times> robot) option"
and moveBackward :: "nat \<Rightarrow> terrain \<Rightarrow> robot \<Rightarrow> (bool \<times> robot) option"
and applyBackoffStrategy :: "nat \<Rightarrow> terrain \<Rightarrow> robot \<Rightarrow> (bool \<times> robot) option"
and runStrategy :: "nat \<Rightarrow> terrain \<Rightarrow> command list \<Rightarrow> robot \<Rightarrow> (bool \<times> robot) option"
where
  "executeCommand 0 t c s = None"
| "executeCommand (Suc n) t c s =
     (if battery s < getBatteryConsumption c then
        (if battery s \<ge> 1 then executeCommand n t E s else Some (False, s))
      else case c of
        F \<Rightarrow> moveForward n t s
      | B \<Rightarrow> moveBackward n t s
      | L \<Rightarrow> Some (turnLeft s)
      | R \<Rightarrow> Some (turnRight s)
      | S \<Rightarrow> Some (takeSample t s)
      | E \<Rightarrow> Some (extendSolarPanels s))"
| "moveForward n t s =
     (let nextPosition = getNextPosition F s in
      if isObstacle t (fst nextPosition) (snd nextPosition) then applyBackoffStrategy n t s
      else Some (moveTo nextPosition s))"
| "moveBackward n t s =
     (let nextPosition = getNextPosition B s in
      if isObstacle t (fst nextPosition) (snd nextPosition) then applyBackoffStrategy n t s
      else Some (moveTo nextPosition s))"
| "applyBackoffStrategy n t s =
     (if currentBackoffStrategy s \<ge> length backoffStrategies then Some (False, s)
      else runStrategy n t (backoffStrategies ! currentBackoffStrategy s)
             (s\<lparr>currentBackoffStrategy := currentBackoffStrategy s + 1\<rparr>))"
| "runStrategy n t [] s = Some (True, s)"
| "runStrategy n t (c # cs) s =
     (case executeCommand n t c s of
        None \<Rightarrow> None
      | Some (success, s') \<Rightarrow> if \<not> success then Some (False, s') else runStrategy n t cs s')"
  by pat_completeness auto

termination
  by (relation "measures
        [\<lambda>a. case a of
            Inl (Inl (n, _)) \<Rightarrow> n
          | Inl (Inr (n, _)) \<Rightarrow> n
          | Inr (Inl (n, _)) \<Rightarrow> n
          | Inr (Inr (Inl (n, _))) \<Rightarrow> n
          | Inr (Inr (Inr (n, _))) \<Rightarrow> n,
         \<lambda>a. case a of
            Inl (Inl _) \<Rightarrow> 0
          | Inl (Inr _) \<Rightarrow> 3
          | Inr (Inl _) \<Rightarrow> 3
          | Inr (Inr (Inl _)) \<Rightarrow> 2
          | Inr (Inr (Inr _)) \<Rightarrow> 1,
         \<lambda>a. case a of
            Inr (Inr (Inr (_, _, cs, _))) \<Rightarrow> length cs
          | _ \<Rightarrow> 0]") auto

text \<open>\<open>executeCommands\<close>: the loop stops at the first command that returns false;
  \<open>getResult\<close> is taken of whatever state was reached.\<close>

definition getResult :: "robot \<Rightarrow> simulation_result" where
  "getResult s =
     \<lparr> VisitedCells = visitedCells s,
       SamplesCollected = samplesCollected s,
       Battery = battery s,
       FinalPosition = ((pos_x s, pos_y s), facing s) \<rparr>"

fun executeCommandsLoop :: "nat \<Rightarrow> terrain \<Rightarrow> command list \<Rightarrow> robot \<Rightarrow> robot option" where
  "executeCommandsLoop n t [] s = Some s"
| "executeCommandsLoop n t (c # cs) s =
     (case executeCommand n t c s of
        None \<Rightarrow> None
      | Some (success, s') \<Rightarrow> if \<not> success then Some s' else executeCommandsLoop n t cs s')"

definition executeCommands :: "nat \<Rightarrow> terrain \<Rightarrow> command list \<Rightarrow> robot \<Rightarrow> simulation_result option" where
  "executeCommands n t cmds s = map_option getResult (executeCommandsLoop n t cmds s)"

section \<open>SimulationService\<close>

text \<open>
  The request body. The terrain is a list of rows of strings, the commands and the
  facing are strings, the coordinates are numbers; the battery is any JavaScript value,
  of which only \<open>typeof battery === 'number'\<close> and its value matter. The checks of
  \<open>validateInput\<close> that such a typed input always passes (\<open>!input\<close>,
  \<open>Array.isArray\<close>, \<open>typeof x !== 'number'\<close>, a missing \<open>initialPosition\<close>) are left
  out.
\<close>

datatype js_value = JSNumber int | JSNonNumber

record simulation_input =
  in_terrain :: terrain
  in_battery :: js_value
  in_commands :: "string list"
  in_x :: int
  in_y :: int
  in_facing :: string

datatype error = Error string

definition validCommands :: "string list" where
  "validCommands = [''F'', ''B'', ''L'', ''R'', ''S'', ''E'']"

definition validFacings :: "string list" where
  "validFacings = [''North'', ''South'', ''East'', ''West'']"

definition validateInput :: "simulation_input \<Rightarrow> error + unit" where
  "validateInput i =
     (let terrain = in_terrain i; x = in_x i; y = in_y i in
      if length terrain = 0 then Inl (Error ''Terrain must be a non-empty 2D array'')
      else if colCount terrain = 0 \<or> list_ex (\<lambda>row. int (length row) \<noteq> colCount terrain) terrain
        then Inl (Error ''Terrain must be a valid 2D array with consistent row lengths'')
      else if (case in_battery i of JSNonNumber \<Rightarrow> True | JSNumber b \<Rightarrow> b < 0)
        then Inl (Error ''Battery must be a non-negative number'')
      else if length (in_commands i) = 0 then Inl (Error ''Commands must be a non-empty array'')
      else if list_ex (\<lambda>cmd. cmd \<notin> set validCommands) (in_commands i)
        then Inl (Error ''Commands must be one of: F, B, L, R, S, E'')
      else if in_facing i = [] \<or> in_facing i \<notin> set validFacings
        then Inl (Error ''Initial position must have a valid facing direction (North, South, East, West)'')
      else if y < 0 \<or> y \<ge> rowCount terrain \<or> x < 0 \<or> x \<ge> colCount terrain
        then Inl (Error ''Initial position is out of terrain bounds'')
      else if cellAt terrain x y = Some ''Obs''
        then Inl (Error ''Initial position cannot be an obstacle'')
      else Inr ())"

text \<open>The strings that passed validation, read as the enumerations of the robot model.\<close>

definition parseCommand :: "string \<Rightarrow> command option" where
  "parseCommand c =
     (if c = ''F'' then Some F else if c = ''B'' then Some B
      else if c = ''L'' then Some L else if c = ''R'' then Some R
      else if c = ''S'' then Some S else if c = ''E'' then Some E else None)"

definition parseFacing :: "string \<Rightarrow> orientation option" where
  "parseFacing f =
     (if f = ''North'' then Some North else if f = ''South'' then Some South
      else if f = ''East'' then Some East else if f = ''West'' then Some West else None)"

text \<open>
  \<open>runSimulation\<close>: validate, build the robot, run the commands. \<open>Some (Inl e)\<close> is the
  thrown error, \<open>Some (Inr r)\<close> the returned result, \<open>None\<close> exhausted fuel. The three
  fall-through branches cannot be taken after a successful validation; they repeat the
  error of the check that excludes them.
\<close>

definition runSimulation :: "nat \<Rightarrow> simulation_input \<Rightarrow> (error + simulation_result) option" where
  "runSimulation n i =
     (case validateInput i of
        Inl e \<Rightarrow> Some (Inl e)
      | Inr _ \<Rightarrow>
          (case in_battery i of
             JSNonNumber \<Rightarrow> Some (Inl (Error ''Battery must be a non-negative number''))
           | JSNumber b \<Rightarrow>
               (case parseFacing (in_facing i) of
                  None \<Rightarrow> Some (Inl (Error ''Initial position must have a valid facing direction (North, South, East, West)''))
                | Some f \<Rightarrow>
                    (case those (map parseCommand (in_commands i)) of
                       None \<Rightarrow> Some (Inl (Error ''Commands must be one of: F, B, L, R, S, E''))
                     | Some cmds \<Rightarrow>
                         map_option Inr
                           (executeCommands n (in_terrain i) cmds
                              (newRobot b (in_x i) (in_y i) f))))))"

section \<open>PathfindingService\<close>

text \<open>
  A position of the search is \<open>{x, y, facing}\<close>. The source keys its maps and its closed
  set by the string made of \<open>x\<close>, \<open>y\<close> and \<open>facing\<close> joined by commas; \<open>parsePositionKey\<close> inverts
  \<open>getPositionKey\<close> on integer coordinates, so a position is its own key here.
  \<open>isObstacle\<close> of the service has the same body as the robot's (with \<open>rows\<close> and
  \<open>cols\<close> for \<open>terrain.length\<close> and \<open>terrain[0].length\<close>) and is shared. The
  constructor reads \<open>terrain[0].length\<close>, so a service exists for a terrain with at
  least one row only.
\<close>

type_synonym pose = "int \<times> int \<times> orientation"

record path_result =
  commands :: "command list"
  remainingBattery :: int
  success :: bool

text \<open>\<open>commandCosts\<close>, as the table is written in the constructor.\<close>

fun commandCosts :: "command \<Rightarrow> int" where
  "commandCosts F = 3"
| "commandCosts B = 3"
| "commandCosts L = 2"
| "commandCosts R = 2"
| "commandCosts S = 8"
| "commandCosts E = - 9"

definition directions :: "orientation list" where
  "directions = [North, East, South, West]"

fun indexOfFacing :: "orientation \<Rightarrow> nat" where
  "indexOfFacing North = 0"
| "indexOfFacing East = 1"
| "indexOfFacing South = 2"
| "indexOfFacing West = 3"

definition getNewFacing :: "orientation \<Rightarrow> command \<Rightarrow> orientation" where
  "getNewFacing f c =
     (let currentIndex = indexOfFacing f in
      if c = L then directions ! ((currentIndex + 3) mod 4)
      else if c = R then directions ! ((currentIndex + 1) mod 4)
      else f)"

definition getNextPose :: "pose \<Rightarrow> command \<Rightarrow> pose" where
  "getNextPose p c =
     (case p of (x, y, f) \<Rightarrow>
        let direction = (if c = F then 1 else - 1) in
        case f of
          North \<Rightarrow> (x, y - direction, f)
        | South \<Rightarrow> (x, y + direction, f)
        | East \<Rightarrow> (x + direction, y, f)
        | West \<Rightarrow> (x - direction, y, f))"

definition getPossibleMoves :: "terrain \<Rightarrow> pose \<Rightarrow> (pose \<times> command) list" where
  "getPossibleMoves t p =
     (case p of (x, y, f) \<Rightarrow>
        let forwardPosition = getNextPose p F;
            backwardPosition = getNextPose p B
        in [((x, y, getNewFacing f L), L), ((x, y, getNewFacing f R), R)]
           @ (if \<not> isObstacle t (fst forwardPosition) (fst (snd forwardPosition))
              then [(forwardPosition, F)] else [])
           @ (if \<not> isObstacle t (fst backwardPosition) (fst (snd backwardPosition))
              then [(backwardPosition, B)] else [])
           @ [(p, E)])"

definition manhattanDistance :: "int \<times> int \<Rightarrow> int \<times> int \<Rightarrow> int" where
  "manhattanDistance a b = \<bar>fst a - fst b\<bar> + \<bar>snd a - snd b\<bar>"

definition heuristic :: "pose \<Rightarrow> int \<times> int \<Rightarrow> int" where
  "heuristic p target = manhattanDistance (fst p, fst (snd p)) target"

subsection \<open>PriorityQueue\<close>

text \<open>
  \<open>elements\<close> is re-sorted by priority after every \<open>push\<close>; \<open>Array.prototype.sort\<close> is
  stable, and so is \<open>sort_key\<close>. Every element of \<open>elements\<close> has an entry in
  \<open>priorities\<close>, so the comparator never reads a missing one.
\<close>

record priority_queue =
  elements :: "pose list"
  priorities :: "pose \<rightharpoonup> int"

definition emptyQueue :: priority_queue where
  "emptyQueue = \<lparr> elements = [], priorities = Map.empty \<rparr>"

definition isEmpty :: "priority_queue \<Rightarrow> bool" where
  "isEmpty q = (length (elements q) = 0)"

definition contains :: "priority_queue \<Rightarrow> pose \<Rightarrow> bool" where
  "contains q element = (priorities q element \<noteq> None)"

definition enqueue :: "priority_queue \<Rightarrow> pose \<Rightarrow> int \<Rightarrow> priority_queue" where
  "enqueue q element priority =
     (let pushed = elements q @ [element];
          prios = (priorities q)(element \<mapsto> priority)
      in \<lparr> elements = sort_key (\<lambda>a. the (prios a)) pushed, priorities = prios \<rparr>)"

text \<open>\<open>dequeue\<close> is only called on a non-empty queue: the loop tests \<open>isEmpty\<close>
  first. Here the test and the call are one case distinction, \<open>None\<close> for the empty
  queue.\<close>

definition dequeue :: "priority_queue \<Rightarrow> (pose \<times> priority_queue) option" where
  "dequeue q =
     (case elements q of
        [] \<Rightarrow> None
      | element # rest \<Rightarrow>
          Some (element, \<lparr> elements = rest, priorities = (priorities q)(element := None) \<rparr>))"

subsection \<open>findPath\<close>

text \<open>The working set of one \<open>findPath\<close> call. Lookups with \<open>the\<close> are of keys that the
  search has stored before (the current key has all four entries). \<open>cameFrom\<close> is
  written and never read; \<open>fScore\<close> is read once, right after it is written, for the
  priority of the key.\<close>

record search =
  openSet :: priority_queue
  closedSet :: "pose set"
  cameFrom :: "pose \<rightharpoonup> pose \<times> command"
  gScore :: "pose \<rightharpoonup> int"
  fScore :: "pose \<rightharpoonup> int"
  batteryLevels :: "pose \<rightharpoonup> int"
  commandSequences :: "pose \<rightharpoonup> command list"

definition initialSearch :: "pose \<Rightarrow> int \<times> int \<Rightarrow> int \<Rightarrow> search" where
  "initialSearch start target initialBattery =
     \<lparr> openSet = enqueue emptyQueue start (heuristic start target),
       closedSet = {},
       cameFrom = Map.empty,
       gScore = [start \<mapsto> 0],
       fScore = [start \<mapsto> heuristic start target],
       batteryLevels = [start \<mapsto> initialBattery],
       commandSequences = [start \<mapsto> []] \<rparr>"

text \<open>The body of \<open>for (const move of possibleMoves)\<close>.\<close>

definition relaxMove :: "int \<times> int \<Rightarrow> pose \<Rightarrow> search \<Rightarrow> pose \<times> command \<Rightarrow> search" where
  "relaxMove target currentKey st move =
     (case move of (neighbor, command) \<Rightarrow>
        if neighbor \<in> closedSet st then st
        else
          let batteryCost = commandCosts command;
              currentBattery = the (batteryLevels st currentKey);
              newBattery = currentBattery + batteryCost
          in if newBattery \<le> 0 then st
             else
               let tentativeGScore = the (gScore st currentKey) + 1 in
               if gScore st neighbor = None \<or> tentativeGScore < the (gScore st neighbor) then
                 let f = tentativeGScore + heuristic neighbor target;
                     st1 = st\<lparr> cameFrom := (cameFrom st)(neighbor \<mapsto> (currentKey, command)),
                               gScore := (gScore st)(neighbor \<mapsto> tentativeGScore),
                               fScore := (fScore st)(neighbor \<mapsto> f),
                               batteryLevels := (batteryLevels st)(neighbor \<mapsto> newBattery),
                               commandSequences := (commandSequences st)
                                 (neighbor \<mapsto> the (commandSequences st currentKey) @ [command]) \<rparr>
                 in if \<not> contains (openSet st1) neighbor
                    then st1\<lparr> openSet := enqueue (openSet st1) neighbor f \<rparr>
                    else st1
               else st)"

text \<open>The \<open>while (!openSet.isEmpty())\<close> loop, with fuel for the number of iterations.\<close>

fun searchLoop :: "nat \<Rightarrow> terrain \<Rightarrow> int \<times> int \<Rightarrow> int \<Rightarrow> search \<Rightarrow> path_result option" where
  "searchLoop 0 t target initialBattery st = None"
| "searchLoop (Suc n) t target initialBattery st =
     (case dequeue (openSet st) of
        None \<Rightarrow> Some \<lparr> commands = [], remainingBattery = initialBattery, success = False \<rparr>
      | Some (currentKey, q) \<Rightarrow>
          if fst currentKey = fst target \<and> fst (snd currentKey) = snd target then
            Some \<lparr> commands = the (commandSequences st currentKey),
                   remainingBattery = the (batteryLevels st currentKey),
                   success = True \<rparr>
          else
            searchLoop n t target initialBattery
              (foldl (relaxMove target currentKey)
                 (st\<lparr> openSet := q, closedSet := insert currentKey (closedSet st) \<rparr>)
                 (getPossibleMoves t currentKey)))"

definition findPath :: "nat \<Rightarrow> terrain \<Rightarrow> pose \<Rightarrow> int \<times> int \<Rightarrow> int \<Rightarrow> path_result option" where
  "findPath n t start target initialBattery =
     searchLoop n t target initialBattery (initialSearch start target initialBattery)"

subsection \<open>generateMissionPlan\<close>





text \<open>A target is \<open>{type, locations}\<close>.\<close>

type_synonym target = "string option \<times> (int \<times> int) list"







section \<open>Auxiliary notions for the proofs\<close>

text \<open>Whether the move \<open>c\<close> (\<open>F\<close> or \<open>B\<close>) of a robot at \<open>(x, y)\<close> facing \<open>f\<close> is
  blocked: the test \<open>isObstacle(nextPosition.x, nextPosition.y)\<close> of \<open>moveForward\<close> and
  \<open>moveBackward\<close>, which reads the position and the facing only.\<close>

definition blockedAt :: "terrain \<Rightarrow> command \<Rightarrow> orientation \<Rightarrow> int \<Rightarrow> int \<Rightarrow> bool" where
  "blockedAt t c f x y =
     (let p = getNextPosition c (newRobot 0 x y f) in isObstacle t (fst p) (snd p))"

definition blockedMove :: "terrain \<Rightarrow> command \<Rightarrow> robot \<Rightarrow> bool" where
  "blockedMove t c s = blockedAt t c (facing s) (pos_x s) (pos_y s)"

text \<open>What a successful \<open>executeCommand\<close> with fuel \<open>n\<close> does to the strategy index: it
  leaves it or resets it, and a move that was affordable resets it.\<close>

definition index_kept :: "nat \<Rightarrow> terrain \<Rightarrow> bool" where
  "index_kept n t \<longleftrightarrow>
     (\<forall>c s s'. executeCommand n t c s = Some (True, s') \<longrightarrow>
        (currentBackoffStrategy s' = 0 \<or> currentBackoffStrategy s' = currentBackoffStrategy s) \<and>
        ((c = F \<or> c = B) \<and> 3 \<le> battery s \<longrightarrow> currentBackoffStrategy s' = 0))"


text \<open>The inputs of the worked examples.\<close>

definition exampleA :: simulation_input where
  "exampleA =
     \<lparr> in_terrain = [[''Fe'', ''Fe'', ''Se''], [''W'', ''Si'', ''Obs'']],
       in_battery = JSNumber 50,
       in_commands = [''F'', ''S'', ''R'', ''F''],
       in_x = 0, in_y = 0, in_facing = ''East'' \<rparr>"

definition exampleB :: simulation_input where
  "exampleB =
     \<lparr> in_terrain = [[''Fe'', ''Obs'', ''Se''], [''W'', ''Si'', ''Obs'']],
       in_battery = JSNumber 50,
       in_commands = [''F''],
       in_x = 0, in_y = 0, in_facing = ''East'' \<rparr>"




text \<open>
  Notions for the proofs about \<open>findPath\<close>. \<open>improve\<close> is the state after the body of
  the innermost \<open>if\<close> of the relaxation loop; \<open>seen\<close> are the keys in the open or the
  closed set; \<open>validPoses\<close> are the poses on the grid; \<open>atTarget\<close> is the goal test
  of the loop; a terrain is \<open>obstacleFree\<close> when no cell inside its bounds is an obstacle.
\<close>

definition improve :: "int \<times> int \<Rightarrow> pose \<Rightarrow> search \<Rightarrow> pose \<Rightarrow> command \<Rightarrow> search" where
  "improve target cur st nb c =
     (let g = the (gScore st cur) + 1;
          f = g + heuristic nb target;
          st1 = st\<lparr> cameFrom := (cameFrom st)(nb \<mapsto> (cur, c)),
                    gScore := (gScore st)(nb \<mapsto> g),
                    fScore := (fScore st)(nb \<mapsto> f),
                    batteryLevels := (batteryLevels st)(nb \<mapsto> the (batteryLevels st cur) + commandCosts c),
                    commandSequences := (commandSequences st)(nb \<mapsto> the (commandSequences st cur) @ [c]) \<rparr>
      in if \<not> contains (openSet st1) nb
         then st1\<lparr> openSet := enqueue (openSet st1) nb f \<rparr>
         else st1)"

definition seen :: "search \<Rightarrow> pose set" where
  "seen st = set (elements (openSet st)) \<union> closedSet st"



definition atTarget :: "pose \<Rightarrow> int \<times> int \<Rightarrow> bool" where
  "atTarget k target \<longleftrightarrow> fst k = fst target \<and> fst (snd k) = snd target"






text \<open>The pose a command leads to in the search graph, as \<open>getPossibleMoves\<close> builds
  the neighbours, and the pose at the end of a command sequence.\<close>

definition applyCommand :: "pose \<Rightarrow> command \<Rightarrow> pose" where
  "applyCommand p c =
     (case c of
        L \<Rightarrow> (fst p, fst (snd p), getNewFacing (snd (snd p)) L)
      | R \<Rightarrow> (fst p, fst (snd p), getNewFacing (snd (snd p)) R)
      | F \<Rightarrow> getNextPose p F
      | B \<Rightarrow> getNextPose p B
      | S \<Rightarrow> p
      | E \<Rightarrow> p)"

definition followCommands :: "pose \<Rightarrow> command list \<Rightarrow> pose" where
  "followCommands start cs = foldl applyCommand start cs"

text \<open>The commands stored for a key lead from the start to the key and hold no \<open>E\<close>,
  and the battery stored for it is the initial battery plus the \<open>commandCosts\<close> of
  these commands.\<close>

definition paths_ok :: "int \<Rightarrow> pose \<Rightarrow> search \<Rightarrow> bool" where
  "paths_ok b0 start st \<longleftrightarrow>
     (\<forall>k \<in> seen st. \<exists>cs. commandSequences st k = Some cs \<and> E \<notin> set cs
        \<and> batteryLevels st k = Some (b0 + sum_list (map commandCosts cs))
        \<and> followCommands start cs = k)"



text \<open>Two adjacent free cells.\<close>

definition pairTerrain :: terrain where
  "pairTerrain = [[''Fe'', ''Fe'']]"

section \<open>Robot: basic facts\<close>

declare moveForward.simps [simp del] moveBackward.simps [simp del]
  applyBackoffStrategy.simps [simp del] executeCommand.simps(2) [simp del]

lemmas terrain_defs = isObstacle_def getTerrainType_def colCount_def rowCount_def cellAt_def

lemmas robot_defs = getNextPosition_def moveTo_def addVisitedCell_def takeSample_def
  turnRight_def turnLeft_def extendSolarPanels_def backoffStrategies_def
  executeCommand.simps(2) moveForward.simps moveBackward.simps applyBackoffStrategy.simps

lemmas sim_defs = runSimulation_def validateInput_def validCommands_def validFacings_def
  parseFacing_def parseCommand_def executeCommands_def newRobot_def getResult_def

lemma blocked_iff:
  "isObstacle t (fst (getNextPosition c s)) (snd (getNextPosition c s)) = blockedMove t c s"
  by (simp add: blockedMove_def blockedAt_def getNextPosition_def newRobot_def Let_def
        split: orientation.splits)

lemma blockedAt_about_face [simp]:
  "blockedAt t B (turnLeftFacing (turnLeftFacing f)) x y = blockedAt t F f x y"
  by (cases f) (simp_all add: blockedAt_def getNextPosition_def newRobot_def)

lemmas step_simps = executeCommand.simps(2) moveForward.simps moveBackward.simps
  applyBackoffStrategy.simps backoffStrategies_def extendSolarPanels_def turnLeft_def
  turnRight_def blocked_iff blockedMove_def moveTo_def Let_def

lemma runStrategy_ConsE:
  assumes "runStrategy n t (c # cs) s = Some (True, s')"
  obtains s1 where "executeCommand n t c s = Some (True, s1)"
    and "runStrategy n t cs s1 = Some (True, s')"
  using assms by (auto split: option.splits if_splits)

lemma executeCommand_E_True:
  assumes "executeCommand n t E s = Some (True, s1)"
  shows "1 \<le> battery s \<and> battery s1 = battery s + 9
         \<and> currentBackoffStrategy s1 = currentBackoffStrategy s"
  using assms
  by (cases n) (auto simp: executeCommand.simps(2) extendSolarPanels_def split: if_splits)

lemma executeCommand_turn_True:
  assumes "executeCommand n t c s = Some (True, s1)" and "c = L \<or> c = R" and "2 \<le> battery s"
  shows "battery s1 = battery s - 2 \<and> currentBackoffStrategy s1 = currentBackoffStrategy s"
  using assms
  by (cases n) (auto simp: executeCommand.simps(2) turnLeft_def turnRight_def split: if_splits)

subsection \<open>The battery never goes below zero\<close>

lemma battery_inv:
  "\<And>ok s'. 0 \<le> battery s \<Longrightarrow> executeCommand n t c s = Some (ok, s') \<Longrightarrow> 0 \<le> battery s'"
  "\<And>ok s'. 3 \<le> battery sf \<Longrightarrow> moveForward nf tf sf = Some (ok, s') \<Longrightarrow> 0 \<le> battery s'"
  "\<And>ok s'. 3 \<le> battery sb \<Longrightarrow> moveBackward nb tb sb = Some (ok, s') \<Longrightarrow> 0 \<le> battery s'"
  "\<And>ok s'. 0 \<le> battery sa \<Longrightarrow> applyBackoffStrategy na ta sa = Some (ok, s') \<Longrightarrow> 0 \<le> battery s'"
  "\<And>ok s'. 0 \<le> battery sr \<Longrightarrow> runStrategy nr tr cs sr = Some (ok, s') \<Longrightarrow> 0 \<le> battery s'"
proof (induction n t c s and nf tf sf and nb tb sb and na ta sa and nr tr cs sr
       rule: executeCommand_moveForward_moveBackward_applyBackoffStrategy_runStrategy.induct)
  case (1 t c s)
  then show ?case by simp
next
  case (2 n t c s)
  show ?case
  proof (cases "battery s < getBatteryConsumption c")
    case True
    with "2.IH"(1)[of ok s'] "2.prems" show ?thesis
      by (auto simp: executeCommand.simps(2) split: if_splits)
  next
    case False
    show ?thesis
    proof (cases c)
      case F
      with False "2.IH"(2)[of ok s'] "2.prems" show ?thesis
        by (simp add: executeCommand.simps(2))
    next
      case B
      with False "2.IH"(3)[of ok s'] "2.prems" show ?thesis
        by (simp add: executeCommand.simps(2))
    next
      case L
      with False "2.prems" show ?thesis
        by (auto simp add: executeCommand.simps(2) turnLeft_def)
    next
      case R
      with False "2.prems" show ?thesis
        by (auto simp add: executeCommand.simps(2) turnRight_def)
    next
      case S
      with False "2.prems" show ?thesis
        by (auto simp add: executeCommand.simps(2) takeSample_def Let_def
              split: option.splits if_splits)
    next
      case E
      with False "2.prems" show ?thesis
        by (auto simp add: executeCommand.simps(2) extendSolarPanels_def)
    qed
  qed
next
  case (3 n t s)
  show ?case
  proof (cases "isObstacle t (fst (getNextPosition F s)) (snd (getNextPosition F s))")
    case True
    with "3.IH"[OF refl True, of ok s'] "3.prems" show ?thesis
      by (simp add: moveForward.simps)
  next
    case False
    with "3.prems" show ?thesis
      by (auto simp: moveForward.simps moveTo_def addVisitedCell_def Let_def split: if_splits)
  qed
next
  case (4 n t s)
  show ?case
  proof (cases "isObstacle t (fst (getNextPosition B s)) (snd (getNextPosition B s))")
    case True
    with "4.IH"[OF refl True, of ok s'] "4.prems" show ?thesis
      by (simp add: moveBackward.simps)
  next
    case False
    with "4.prems" show ?thesis
      by (auto simp: moveBackward.simps moveTo_def addVisitedCell_def Let_def split: if_splits)
  qed
next
  case (5 n t s)
  show ?case
  proof (cases "currentBackoffStrategy s \<ge> length backoffStrategies")
    case True
    with "5.prems" show ?thesis by (simp add: applyBackoffStrategy.simps)
  next
    case False
    with "5.IH"[OF False, of ok s'] "5.prems" show ?thesis
      by (simp add: applyBackoffStrategy.simps)
  qed
next
  case (6 n t s)
  then show ?case by simp
next
  case (7 n t c cs s)
  show ?case
  proof (cases "executeCommand n t c s")
    case None
    with "7.prems"(2) show ?thesis by simp
  next
    case (Some r)
    obtain ok1 s1 where r: "r = (ok1, s1)" by (cases r)
    from "7.IH"(1)[OF "7.prems"(1), of ok1 s1] Some r have b1: "0 \<le> battery s1" by simp
    show ?thesis
    proof (cases ok1)
      case True
      with "7.IH"(2)[OF Some r[symmetric], of ok s'] b1 "7.prems"(2) Some r show ?thesis
        by simp
    next
      case False
      with "7.prems"(2) Some r b1 show ?thesis by simp
    qed
  qed
qed

lemma dispatched_cost:
  assumes "getBatteryConsumption c \<le> battery s"
    and "\<not> ((c = F \<or> c = B) \<and> blockedMove t c s)"
  shows "\<exists>s'. executeCommand (Suc n) t c s = Some (True, s')
           \<and> battery s' = battery s - getBatteryConsumption c + (if c = E then 10 else 0)"
  using assms
  by (cases c)
     (auto simp: step_simps addVisitedCell_def takeSample_def split: option.splits)

text \<open>
  Claim C1. For every robot state with a battery of at least 0 (every state reached
  from a valid start is one) and every command, the battery is at least 0 after
  \<open>executeCommand\<close> has returned, whatever it returns. A command that is dispatched
  (its cost is covered and it is not a blocked move) succeeds and leaves exactly the
  battery minus its fixed cost, plus the 10 that \<open>E\<close> gains after paying.
\<close>

theorem battery_never_negative:
  assumes "0 \<le> battery s" and "executeCommand (Suc n) t c s = Some (ok, s')"
  shows "0 \<le> battery s'
         \<and> (getBatteryConsumption c \<le> battery s \<and> \<not> ((c = F \<or> c = B) \<and> blockedMove t c s)
              \<longrightarrow> ok \<and> battery s' = battery s - getBatteryConsumption c + (if c = E then 10 else 0))"
  using battery_inv(1)[OF assms] dispatched_cost[of c s t n] assms(2) by auto

theorem battery_never_negative_witness:
  "0 \<le> battery (newRobot 3 0 0 East)
   \<and> executeCommand (Suc 0) [[''Fe'', ''Fe'']] F (newRobot 3 0 0 East)
       = Some (True, (newRobot 0 1 0 East)\<lparr>visitedCells := [(0, 0), (1, 0)]\<rparr>)
   \<and> battery ((newRobot 0 1 0 East)\<lparr>visitedCells := [(0, 0), (1, 0)]\<rparr>) = 0"
proof -
  have run: "executeCommand (Suc 0) [[''Fe'', ''Fe'']] F (newRobot 3 0 0 East)
       = Some (True, (newRobot 0 1 0 East)\<lparr>visitedCells := [(0, 0), (1, 0)]\<rparr>)"
    by (simp add: robot_defs terrain_defs newRobot_def)
  have start: "0 \<le> battery (newRobot 3 0 0 East)" by (simp add: newRobot_def)
  from battery_never_negative[OF start run] start run show ?thesis
    by (simp add: newRobot_def)
qed

subsection \<open>Worked examples and the low-battery substitution\<close>

text \<open>
  Claim C2 (worked example A). On the terrain \<open>[[Fe,Fe,Se],[W,Si,Obs]]\<close> with battery 50,
  start \<open>(0,0)\<close> facing East, the commands \<open>F, S, R, F\<close> give the visited cells
  \<open>(0,0), (1,0), (1,1)\<close>, the samples \<open>[Fe]\<close>, battery 34 and the final position
  \<open>(1,1)\<close> facing South. One level of fuel is enough, and any more gives the same.
\<close>

theorem example_A:
  "runSimulation (Suc n) exampleA =
     Some (Inr \<lparr> VisitedCells = [(0, 0), (1, 0), (1, 1)],
                 SamplesCollected = [''Fe''],
                 Battery = 34,
                 FinalPosition = ((1, 1), South) \<rparr>)"
  by (simp add: exampleA_def sim_defs robot_defs terrain_defs)

text \<open>
  Claim C3. When \<open>executeCommand(cmd)\<close> is called with a battery below the cost of
  \<open>cmd\<close>: with a battery of at least 1 it returns true and the only change is the
  battery, minus 1 plus 10 (so \<open>cmd\<close> itself is not performed); with a battery below 1
  it returns false and changes nothing. \<open>E\<close> from battery 5 gives battery 14.
\<close>

theorem low_battery_substitutes_ExtendPanels:
  assumes "battery s < getBatteryConsumption c"
  shows "executeCommand (Suc (Suc n)) t c s =
           (if battery s \<ge> 1 then Some (True, s\<lparr>battery := battery s - 1 + 10\<rparr>)
            else Some (False, s))
         \<and> executeCommand (Suc n) t E (s\<lparr>battery := 5\<rparr>) = Some (True, s\<lparr>battery := 14\<rparr>)"
  using assms by (simp add: executeCommand.simps(2) extendSolarPanels_def)

theorem low_battery_substitutes_ExtendPanels_witness:
  "battery (newRobot 4 0 0 East) < getBatteryConsumption S
   \<and> executeCommand (Suc (Suc 0)) [[''Fe'']] S (newRobot 4 0 0 East)
       = Some (True, newRobot 13 0 0 East)
   \<and> executeCommand (Suc (Suc 0)) [[''Fe'']] S (newRobot 0 0 0 East)
       = Some (False, newRobot 0 0 0 East)"
proof -
  have low: "battery (newRobot 4 0 0 East) < getBatteryConsumption S"
    and none: "battery (newRobot 0 0 0 East) < getBatteryConsumption S"
    by (simp_all add: newRobot_def)
  from low_battery_substitutes_ExtendPanels[OF low, of 0 "[[''Fe'']]"]
    low_battery_substitutes_ExtendPanels[OF none, of 0 "[[''Fe'']]"] low
  show ?thesis by (simp add: newRobot_def)
qed

text \<open>
  Claim C4. A move (\<open>F\<close> or \<open>B\<close>) whose destination is an obstacle or out of bounds
  does not pay its cost of 3. With a strategy index of 7 or more it fails at once and the
  robot is unchanged. Otherwise the strategy at the index is taken, the index is
  incremented before any of its commands runs (so whatever the outcome), and the commands
  run in order through \<open>executeCommand\<close>, stopping at the first that fails. Worked
  example B: on \<open>[[Fe,Obs,Se],[W,Si,Obs]]\<close> with battery 50 from \<open>(0,0)\<close> facing East,
  the command \<open>F\<close> ends at \<open>(0,1)\<close> facing South with battery 54.
\<close>

theorem blocked_move_backoff:
  assumes "c = F \<or> c = B" and "blockedMove t c s"
  shows "(if c = F then moveForward n t s else moveBackward n t s) =
           (if currentBackoffStrategy s \<ge> 7 then Some (False, s)
            else runStrategy n t (backoffStrategies ! currentBackoffStrategy s)
                   (s\<lparr>currentBackoffStrategy := currentBackoffStrategy s + 1\<rparr>))
         \<and> (3 \<le> battery s \<longrightarrow>
              executeCommand (Suc n) t c s =
                (if c = F then moveForward n t s else moveBackward n t s))
         \<and> runStrategy n t [] s = Some (True, s)
         \<and> runStrategy n t (c' # cs) s =
              (case executeCommand n t c' s of
                 None \<Rightarrow> None
               | Some (ok, s') \<Rightarrow> if ok then runStrategy n t cs s' else Some (False, s'))
         \<and> runSimulation (Suc (Suc n)) exampleB =
              Some (Inr \<lparr> VisitedCells = [(0, 0), (0, 1)], SamplesCollected = [],
                          Battery = 54, FinalPosition = ((0, 1), South) \<rparr>)"
proof -
  have "runSimulation (Suc (Suc n)) exampleB =
          Some (Inr \<lparr> VisitedCells = [(0, 0), (0, 1)], SamplesCollected = [],
                      Battery = 54, FinalPosition = ((0, 1), South) \<rparr>)"
    by (simp add: exampleB_def sim_defs robot_defs terrain_defs)
  moreover have "runStrategy n t (c' # cs) s =
              (case executeCommand n t c' s of
                 None \<Rightarrow> None
               | Some (ok, s') \<Rightarrow> if ok then runStrategy n t cs s' else Some (False, s'))"
    by (auto split: option.splits)
  moreover have "(if c = F then moveForward n t s else moveBackward n t s) =
           (if currentBackoffStrategy s \<ge> 7 then Some (False, s)
            else runStrategy n t (backoffStrategies ! currentBackoffStrategy s)
                   (s\<lparr>currentBackoffStrategy := currentBackoffStrategy s + 1\<rparr>))"
    using assms
    by (auto simp: moveForward.simps moveBackward.simps applyBackoffStrategy.simps blocked_iff
          Let_def backoffStrategies_def)
  moreover have "3 \<le> battery s \<longrightarrow>
              executeCommand (Suc n) t c s =
                (if c = F then moveForward n t s else moveBackward n t s)"
    using assms(1) by (auto simp: executeCommand.simps(2))
  ultimately show ?thesis by simp
qed

theorem blocked_move_backoff_witness:
  "blockedMove [[''Fe'', ''Obs'', ''Se''], [''W'', ''Si'', ''Obs'']] F (newRobot 50 0 0 East)
   \<and> executeCommand (Suc (Suc 0)) [[''Fe'', ''Obs'', ''Se''], [''W'', ''Si'', ''Obs'']] F
        (newRobot 50 0 0 East)
      = runStrategy (Suc 0) [[''Fe'', ''Obs'', ''Se''], [''W'', ''Si'', ''Obs'']] [E, R, F]
          ((newRobot 50 0 0 East)\<lparr>currentBackoffStrategy := 1\<rparr>)
   \<and> executeCommand (Suc (Suc 0)) [[''Fe'', ''Obs'', ''Se''], [''W'', ''Si'', ''Obs'']] F
        ((newRobot 50 0 0 East)\<lparr>currentBackoffStrategy := 7\<rparr>)
      = Some (False, (newRobot 50 0 0 East)\<lparr>currentBackoffStrategy := 7\<rparr>)"
proof -
  let ?t = "[[''Fe'', ''Obs'', ''Se''], [''W'', ''Si'', ''Obs'']]"
  have b0: "blockedMove ?t F (newRobot 50 0 0 East)"
    and b7: "blockedMove ?t F ((newRobot 50 0 0 East)\<lparr>currentBackoffStrategy := 7\<rparr>)"
    by (simp_all add: blockedMove_def blockedAt_def getNextPosition_def newRobot_def terrain_defs)
  from blocked_move_backoff[OF disjI1[OF refl] b0, of "Suc 0"]
    blocked_move_backoff[OF disjI1[OF refl] b7, of "Suc 0"] b0
  show ?thesis by (simp add: newRobot_def backoffStrategies_def)
qed

subsection \<open>The strategy index after a successful escape\<close>

lemma runStrategy_keeps_zero:
  assumes "index_kept n t" "runStrategy n t cs s = Some (True, s')" "currentBackoffStrategy s = 0"
  shows "currentBackoffStrategy s' = 0"
  using assms(2,3)
proof (induction cs arbitrary: s)
  case Nil
  then show ?case by simp
next
  case (Cons c cs)
  from Cons.prems(1) obtain s1 where
    s1: "executeCommand n t c s = Some (True, s1)" "runStrategy n t cs s1 = Some (True, s')"
    by (rule runStrategy_ConsE)
  from assms(1) s1(1) Cons.prems(2) have "currentBackoffStrategy s1 = 0"
    unfolding index_kept_def by fastforce
  with Cons.IH s1(2) show ?case by blast
qed

lemma runStrategy_turns_then_move:
  assumes "index_kept n t" "runStrategy n t (pre @ m # rest) s = Some (True, s')"
    "\<forall>c\<in>set pre. c = L \<or> c = R" "m = F \<or> m = B" "2 * int (length pre) + 3 \<le> battery s"
  shows "currentBackoffStrategy s' = 0"
  using assms(2,3,5)
proof (induction pre arbitrary: s)
  case Nil
  from Nil.prems(1) have "runStrategy n t (m # rest) s = Some (True, s')" by simp
  then obtain s1 where
    s1: "executeCommand n t m s = Some (True, s1)" "runStrategy n t rest s1 = Some (True, s')"
    by (rule runStrategy_ConsE)
  from assms(1,4) s1(1) Nil.prems(3) have "currentBackoffStrategy s1 = 0"
    unfolding index_kept_def by fastforce
  with assms(1) s1(2) show ?case by (rule runStrategy_keeps_zero)
next
  case (Cons c pre)
  from Cons.prems(1) have "runStrategy n t (c # (pre @ m # rest)) s = Some (True, s')" by simp
  then obtain s1 where
    s1: "executeCommand n t c s = Some (True, s1)" "runStrategy n t (pre @ m # rest) s1 = Some (True, s')"
    by (rule runStrategy_ConsE)
  from Cons.prems have "c = L \<or> c = R" "2 \<le> battery s" by auto
  with s1(1) have "battery s1 = battery s - 2" using executeCommand_turn_True by blast
  with Cons.prems have "2 * int (length pre) + 3 \<le> battery s1" by simp
  with Cons.IH s1(2) Cons.prems(2) show ?case by simp
qed

lemma strategy_shape:
  assumes "k < length backoffStrategies"
  shows "\<exists>pre m rest. backoffStrategies ! k = E # pre @ m # rest \<and> (\<forall>c\<in>set pre. c = L \<or> c = R) \<and>
           (m = F \<or> m = B) \<and> length pre \<le> 2"
proof -
  from assms have "k \<in> {0, 1, 2, 3, 4, 5, 6}" by (auto simp: backoffStrategies_def)
  then consider "k = 0" | "k = 1" | "k = 2" | "k = 3" | "k = 4" | "k = 5" | "k = 6" by auto
  then show ?thesis
  proof cases
    case 1
    have "backoffStrategies ! k = E # [R] @ F # []" using 1 by (simp add: backoffStrategies_def)
    then show ?thesis by (intro exI[of _ "[R]"] exI[of _ F] exI[of _ "[]"]) simp
  next
    case 2
    have "backoffStrategies ! k = E # [L] @ F # []" using 2 by (simp add: backoffStrategies_def)
    then show ?thesis by (intro exI[of _ "[L]"] exI[of _ F] exI[of _ "[]"]) simp
  next
    case 3
    have "backoffStrategies ! k = E # [L, L] @ F # []" using 3 by (simp add: backoffStrategies_def)
    then show ?thesis by (intro exI[of _ "[L, L]"] exI[of _ F] exI[of _ "[]"]) simp
  next
    case 4
    have "backoffStrategies ! k = E # [] @ B # [R, F]" using 4 by (simp add: backoffStrategies_def)
    then show ?thesis by (intro exI[of _ "[]"] exI[of _ B] exI[of _ "[R, F]"]) simp
  next
    case 5
    have "backoffStrategies ! k = E # [] @ B # [B, L, F]" using 5 by (simp add: backoffStrategies_def)
    then show ?thesis by (intro exI[of _ "[]"] exI[of _ B] exI[of _ "[B, L, F]"]) simp
  next
    case 6
    have "backoffStrategies ! k = E # [] @ F # [F]" using 6 by (simp add: backoffStrategies_def)
    then show ?thesis by (intro exI[of _ "[]"] exI[of _ F] exI[of _ "[F]"]) simp
  next
    case 7
    have "backoffStrategies ! k = E # [] @ F # [L, F, L, F]" using 7 by (simp add: backoffStrategies_def)
    then show ?thesis by (intro exI[of _ "[]"] exI[of _ F] exI[of _ "[L, F, L, F]"]) simp
  qed
qed

lemma applyBackoffStrategy_resets:
  assumes "index_kept n t" "applyBackoffStrategy n t s = Some (True, s')"
  shows "currentBackoffStrategy s' = 0"
proof -
  let ?k = "currentBackoffStrategy s"
  let ?s0 = "s\<lparr>currentBackoffStrategy := ?k + 1\<rparr>"
  from assms(2) have k: "?k < length backoffStrategies"
    and run: "runStrategy n t (backoffStrategies ! ?k) ?s0 = Some (True, s')"
    by (auto simp: applyBackoffStrategy.simps split: if_splits)
  from strategy_shape[OF k] obtain pre m rest where
    shape: "backoffStrategies ! ?k = E # pre @ m # rest" "\<forall>c\<in>set pre. c = L \<or> c = R"
      "m = F \<or> m = B" "length pre \<le> 2" by blast
  from run shape(1) have "runStrategy n t (E # (pre @ m # rest)) ?s0 = Some (True, s')" by simp
  then obtain s1 where
    s1: "executeCommand n t E ?s0 = Some (True, s1)" "runStrategy n t (pre @ m # rest) s1 = Some (True, s')"
    by (rule runStrategy_ConsE)
  from executeCommand_E_True[OF s1(1)] have "10 \<le> battery s1" by simp
  with shape(4) have "2 * int (length pre) + 3 \<le> battery s1" by simp
  with assms(1) s1(2) shape(2,3) show ?thesis by (rule runStrategy_turns_then_move)
qed

lemma index_kept_all: "index_kept n t"
proof (induction n)
  case 0
  show ?case by (simp add: index_kept_def)
next
  case (Suc n)
  show ?case
    unfolding index_kept_def
  proof (intro allI impI)
    fix c s s'
    assume ex: "executeCommand (Suc n) t c s = Some (True, s')"
    show "(currentBackoffStrategy s' = 0 \<or> currentBackoffStrategy s' = currentBackoffStrategy s) \<and>
        ((c = F \<or> c = B) \<and> 3 \<le> battery s \<longrightarrow> currentBackoffStrategy s' = 0)"
    proof (cases "battery s < getBatteryConsumption c")
      case True
      with ex have "executeCommand n t E s = Some (True, s')"
        by (simp add: executeCommand.simps(2) split: if_splits)
      from executeCommand_E_True[OF this] True show ?thesis by auto
    next
      case False
      have mv: "currentBackoffStrategy s' = 0"
        if "moveForward n t s = Some (True, s') \<or> moveBackward n t s = Some (True, s')"
        using that applyBackoffStrategy_resets[OF Suc, of s s']
        by (auto simp: moveForward.simps moveBackward.simps moveTo_def Let_def split: if_splits)
      from ex False mv show ?thesis
        by (cases c) (auto simp: executeCommand.simps(2) turnLeft_def turnRight_def takeSample_def
              extendSolarPanels_def Let_def split: option.splits if_splits)
    qed
  qed
qed

text \<open>
  Claim C10. Each of the 7 strategies ends with a move. After a backoff attempt that
  returns true the strategy index is 0. Hence a run of commands that all succeed, started
  with index 0, ends with index 0, and a blocked move that follows it starts again with
  the first strategy \<open>[E, R, F]\<close>.
\<close>

theorem successful_backoff_resets_index:
  assumes "applyBackoffStrategy n t s = Some (True, s')"
  shows "currentBackoffStrategy s' = 0
         \<and> length backoffStrategies = 7
         \<and> list_all (\<lambda>strategy. strategy \<noteq> [] \<and> last strategy = F) backoffStrategies
         \<and> (currentBackoffStrategy s0 = 0 \<and> runStrategy n t cmds s0 = Some (True, s1)
              \<longrightarrow> currentBackoffStrategy s1 = 0
                  \<and> (3 \<le> battery s1 \<and> blockedMove t F s1 \<longrightarrow>
                       executeCommand (Suc n) t F s1 =
                         runStrategy n t [E, R, F] (s1\<lparr>currentBackoffStrategy := 1\<rparr>)))"
proof -
  have "currentBackoffStrategy s' = 0"
    using index_kept_all assms by (rule applyBackoffStrategy_resets)
  moreover have "length backoffStrategies = 7"
    and "list_all (\<lambda>strategy. strategy \<noteq> [] \<and> last strategy = F) backoffStrategies"
    by (simp_all add: backoffStrategies_def)
  moreover have "currentBackoffStrategy s1 = 0
                  \<and> (3 \<le> battery s1 \<and> blockedMove t F s1 \<longrightarrow>
                       executeCommand (Suc n) t F s1 =
                         runStrategy n t [E, R, F] (s1\<lparr>currentBackoffStrategy := 1\<rparr>))"
    if "currentBackoffStrategy s0 = 0" and "runStrategy n t cmds s0 = Some (True, s1)"
  proof -
    from index_kept_all that(2,1) have z: "currentBackoffStrategy s1 = 0"
      by (rule runStrategy_keeps_zero)
    then show ?thesis
      by (simp add: executeCommand.simps(2) moveForward.simps applyBackoffStrategy.simps
            blocked_iff backoffStrategies_def)
  qed
  ultimately show ?thesis by blast
qed

text \<open>An escape that succeeds with the first strategy, and on a single cell an escape
  that fails: there the nested attempts use up all seven strategies.\<close>

theorem successful_backoff_resets_index_witness:
  "applyBackoffStrategy (Suc 0) [[''Fe'', ''Obs'', ''Se''], [''W'', ''Si'', ''Obs'']]
       (newRobot 50 0 0 East)
     = Some (True, (newRobot 54 0 1 South)\<lparr>visitedCells := [(0, 0), (0, 1)]\<rparr>)
   \<and> currentBackoffStrategy ((newRobot 54 0 1 South)\<lparr>visitedCells := [(0, 0), (0, 1)]\<rparr>) = 0
   \<and> applyBackoffStrategy (Suc (Suc (Suc (Suc (Suc (Suc (Suc 0))))))) [[''Fe'']]
         (newRobot 50 0 0 North)
       = Some (False, (newRobot 105 0 0 South)\<lparr>currentBackoffStrategy := 7\<rparr>)"
proof -
  have stuck: "applyBackoffStrategy (Suc (Suc (Suc (Suc (Suc (Suc (Suc 0))))))) [[''Fe'']]
         (newRobot 50 0 0 North)
       = Some (False, (newRobot 105 0 0 South)\<lparr>currentBackoffStrategy := 7\<rparr>)"
    by (simp add: robot_defs terrain_defs newRobot_def)
  have run: "applyBackoffStrategy (Suc 0) [[''Fe'', ''Obs'', ''Se''], [''W'', ''Si'', ''Obs'']]
       (newRobot 50 0 0 East)
     = Some (True, (newRobot 54 0 1 South)\<lparr>visitedCells := [(0, 0), (0, 1)]\<rparr>)"
    by (simp add: robot_defs terrain_defs newRobot_def)
  from successful_backoff_resets_index[OF run] run stuck show ?thesis by simp
qed

subsection \<open>Every command returns\<close>










subsection \<open>Validation\<close>





subsection \<open>Errors and results of a simulation\<close>






section \<open>Mission planner: the order of the targets\<close>












section \<open>Pathfinder\<close>

subsection \<open>One relaxation step\<close>

lemma isEmpty_dequeue: "isEmpty q \<longleftrightarrow> dequeue q = None"
  by (simp add: isEmpty_def dequeue_def split: list.splits)

lemma relaxMove_eq:
  "relaxMove target cur st (nb, c) =
     (if nb \<in> closedSet st \<or> the (batteryLevels st cur) + commandCosts c \<le> 0
         \<or> \<not> (gScore st nb = None \<or> the (gScore st cur) + 1 < the (gScore st nb))
      then st else improve target cur st nb c)"
  by (simp add: relaxMove_def improve_def Let_def)

lemma set_elements_enqueue [simp]:
  "set (elements (enqueue q k p)) = insert k (set (elements q))"
  by (simp add: enqueue_def Let_def)

lemma distinct_elements_enqueue [simp]:
  "distinct (elements (enqueue q k p)) \<longleftrightarrow> k \<notin> set (elements q) \<and> distinct (elements q)"
  by (auto simp add: enqueue_def Let_def)

lemma priorities_enqueue [simp]:
  "priorities (enqueue q k p) = (priorities q)(k \<mapsto> p)"
  by (simp add: enqueue_def Let_def)

lemma improve_fields [simp]:
  "closedSet (improve target cur st nb c) = closedSet st"
  "gScore (improve target cur st nb c) = (gScore st)(nb \<mapsto> the (gScore st cur) + 1)"
  "batteryLevels (improve target cur st nb c) =
     (batteryLevels st)(nb \<mapsto> the (batteryLevels st cur) + commandCosts c)"
  "commandSequences (improve target cur st nb c) =
     (commandSequences st)(nb \<mapsto> the (commandSequences st cur) @ [c])"
  by (simp_all add: improve_def Let_def)


lemma getNewFacing_simps [simp]:
  "getNewFacing North L = West" "getNewFacing West L = South"
  "getNewFacing South L = East" "getNewFacing East L = North"
  "getNewFacing North R = East" "getNewFacing East R = South"
  "getNewFacing South R = West" "getNewFacing West R = North"
  by (simp_all add: getNewFacing_def directions_def)


lemma relaxMove_closedSet [simp]: "closedSet (relaxMove target cur st mv) = closedSet st"
  by (cases mv) (simp add: relaxMove_eq)

lemma foldl_relaxMove_closedSet [simp]:
  "closedSet (foldl (relaxMove target cur) st mvs) = closedSet st"
  by (induction mvs arbitrary: st) simp_all





lemma dequeue_SomeD:
  assumes "dequeue q = Some (k, q')"
  shows "elements q = k # elements q'" and "priorities q' = (priorities q)(k := None)"
  using assms by (auto simp: dequeue_def split: list.splits)


subsection \<open>The closed set of an exhausted search covers an obstacle-free grid\<close>




subsection \<open>The search loop ends at the target\<close>








subsection \<open>What the stored commands and batteries are\<close>

lemma recharge_move_is_self:
  assumes "(nb, E) \<in> set (getPossibleMoves t cur)"
  shows "nb = cur"
proof -
  obtain x y f where cur: "cur = (x, y, f)" by (cases cur)
  from assms show ?thesis
    by (auto simp: cur getPossibleMoves_def Let_def split: if_splits)
qed

lemma move_applies:
  assumes "(nb, c) \<in> set (getPossibleMoves t cur)"
  shows "applyCommand cur c = nb"
proof -
  obtain x y f where cur: "cur = (x, y, f)" by (cases cur)
  from assms show ?thesis
    by (auto simp: cur getPossibleMoves_def applyCommand_def Let_def split: if_splits)
qed

lemma improve_seen_subset: "seen (improve target cur st nb c) \<subseteq> insert nb (seen st)"
  by (auto simp: seen_def improve_def Let_def)

lemma relaxMove_paths_ok:
  assumes inv: "paths_ok b0 start st" and cur: "cur \<in> closedSet st"
    and mv: "mv \<in> set (getPossibleMoves t cur)"
  shows "paths_ok b0 start (relaxMove target cur st mv)"
proof -
  obtain nb c where mvp: "mv = (nb, c)" by (cases mv)
  show ?thesis
  proof (cases "relaxMove target cur st mv = st")
    case True
    with inv show ?thesis by simp
  next
    case False
    then have imp: "relaxMove target cur st mv = improve target cur st nb c"
      and nb: "nb \<notin> closedSet st"
      by (auto simp: mvp relaxMove_eq split: if_splits)
    from nb cur mv mvp have c: "c \<noteq> E" using recharge_move_is_self[of nb t cur] by auto
    from mv mvp have ap: "applyCommand cur c = nb" by (simp add: move_applies)
    from inv cur obtain cs where cs: "commandSequences st cur = Some cs" "E \<notin> set cs"
      "batteryLevels st cur = Some (b0 + sum_list (map commandCosts cs))"
      "followCommands start cs = cur"
      unfolding paths_ok_def seen_def by blast
    show ?thesis
      unfolding imp paths_ok_def
    proof
      fix k assume "k \<in> seen (improve target cur st nb c)"
      with improve_seen_subset have "k = nb \<or> k \<in> seen st" by blast
      with inv cs c ap
      show "\<exists>cs. commandSequences (improve target cur st nb c) k = Some cs \<and> E \<notin> set cs
              \<and> batteryLevels (improve target cur st nb c) k = Some (b0 + sum_list (map commandCosts cs))
              \<and> followCommands start cs = k"
        by (auto simp: paths_ok_def followCommands_def)
    qed
  qed
qed

lemma relax_all_paths_ok:
  assumes "paths_ok b0 start st" and "cur \<in> closedSet st"
    and "set mvs \<subseteq> set (getPossibleMoves t cur)"
  shows "paths_ok b0 start (foldl (relaxMove target cur) st mvs)"
  using assms
proof (induction mvs arbitrary: st)
  case Nil
  then show ?case by simp
next
  case (Cons mv mvs)
  from Cons.prems have "paths_ok b0 start (relaxMove target cur st mv)"
    by (intro relaxMove_paths_ok) auto
  moreover from Cons.prems have "cur \<in> closedSet (relaxMove target cur st mv)" by simp
  ultimately show ?case using Cons.IH Cons.prems(3) by simp
qed

lemma searchLoop_paths_ok:
  "paths_ok b0 start st \<Longrightarrow> searchLoop n t target b0 st = Some r \<Longrightarrow>
   E \<notin> set (commands r) \<and> remainingBattery r = b0 + sum_list (map commandCosts (commands r))
   \<and> (success r \<longrightarrow> atTarget (followCommands start (commands r)) target)"
proof (induction n arbitrary: st)
  case 0
  then show ?case by simp
next
  case (Suc n)
  show ?case
  proof (cases "dequeue (openSet st)")
    case None
    with Suc.prems(2) show ?thesis by auto
  next
    case (Some a)
    obtain k q where a: "a = (k, q)" by (cases a)
    note d = dequeue_SomeD[OF Some[unfolded a]]
    from d(1) have ks: "k \<in> seen st" by (simp add: seen_def)
    with Suc.prems(1) obtain cs where cs: "commandSequences st k = Some cs" "E \<notin> set cs"
      "batteryLevels st k = Some (b0 + sum_list (map commandCosts cs))"
      "followCommands start cs = k"
      unfolding paths_ok_def by blast
    show ?thesis
    proof (cases "fst k = fst target \<and> fst (snd k) = snd target")
      case True
      with Suc.prems(2) Some a cs show ?thesis by (auto simp: atTarget_def)
    next
      case False
      let ?st1 = "st\<lparr> openSet := q, closedSet := insert k (closedSet st) \<rparr>"
      have "seen ?st1 = seen st" using d(1) by (auto simp: seen_def)
      with Suc.prems(1) have "paths_ok b0 start ?st1" by (simp add: paths_ok_def)
      then have "paths_ok b0 start (foldl (relaxMove target k) ?st1 (getPossibleMoves t k))"
        by (rule relax_all_paths_ok[where t = t]) simp_all
      moreover from Suc.prems(2) Some a False
      have "searchLoop n t target b0 (foldl (relaxMove target k) ?st1 (getPossibleMoves t k)) = Some r"
        by auto
      ultimately show ?thesis by (rule Suc.IH)
    qed
  qed
qed

lemma findPath_paths_ok:
  assumes "findPath n t start target initialBattery = Some r"
  shows "E \<notin> set (commands r)"
    and "remainingBattery r = initialBattery + sum_list (map commandCosts (commands r))"
    and "success r \<longrightarrow> atTarget (followCommands start (commands r)) target"
proof -
  have "paths_ok initialBattery start (initialSearch start target initialBattery)"
    by (simp add: paths_ok_def seen_def initialSearch_def emptyQueue_def enqueue_def Let_def
          followCommands_def)
  from searchLoop_paths_ok[OF this assms[unfolded findPath_def]]
  show "E \<notin> set (commands r)"
    and "remainingBattery r = initialBattery + sum_list (map commandCosts (commands r))"
    and "success r \<longrightarrow> atTarget (followCommands start (commands r)) target"
    by simp_all
qed

lemmas search_defs = findPath_def initialSearch_def enqueue_def emptyQueue_def heuristic_def
  manhattanDistance_def dequeue_def getPossibleMoves_def getNextPose_def getNewFacing_def
  directions_def relaxMove_def contains_def Let_def

subsection \<open>Two searches on a pair of cells\<close>

lemma findPath_pair_east:
  "findPath (Suc (Suc n)) pairTerrain (0, 0, East) (1, 0) 3 =
     Some \<lparr> commands = [F], remainingBattery = 6, success = True \<rparr>"
  by (simp add: search_defs pairTerrain_def terrain_defs)



lemma costs_without_recharge:
  "E \<notin> set cs \<Longrightarrow> 0 \<le> sum_list (map commandCosts cs)"
proof (induction cs)
  case Nil
  show ?case by simp
next
  case (Cons c cs)
  then show ?case by (cases c) simp_all
qed

section \<open>Pathfinder: the claims\<close>

text \<open>
  Claim C5 says that a successful \<open>findPath\<close> result keeps the battery above 0 when
  its commands are replayed. The code does not ensure it: the search adds the entries of
  \<open>commandCosts\<close> to the battery where it should subtract them, so the battery it
  tracks and reports is the initial battery plus the costs of the commands, never below
  the initial one, and its test \<open>newBattery \<le> 0\<close> rejects nothing that drains.
\<close>

theorem findPath_adds_costs:
  assumes "findPath n t start target initialBattery = Some r"
  shows "remainingBattery r = initialBattery + sum_list (map commandCosts (commands r))
         \<and> initialBattery \<le> remainingBattery r"
  using findPath_paths_ok(1,2)[OF assms] costs_without_recharge[of "commands r"] by simp

text \<open>The failing input: from battery 3 the search returns \<open>[F]\<close> as a success and
  reports battery 6; the robot that replays \<open>[F]\<close> from battery 3 ends with battery 0.\<close>

theorem findPath_adds_costs_witness:
  "findPath (Suc (Suc 0)) pairTerrain (0, 0, East) (1, 0) 3 =
     Some \<lparr> commands = [F], remainingBattery = 6, success = True \<rparr>
   \<and> remainingBattery \<lparr> commands = [F], remainingBattery = 6, success = True \<rparr>
       = 3 + sum_list (map commandCosts [F])
   \<and> executeCommands (Suc 0) pairTerrain [F] (newRobot 3 0 0 East) =
       Some \<lparr> VisitedCells = [(0, 0), (1, 0)], SamplesCollected = [], Battery = 0,
              FinalPosition = ((1, 0), East) \<rparr>"
proof -
  note run = findPath_pair_east[of 0]
  have replay: "executeCommands (Suc 0) pairTerrain [F] (newRobot 3 0 0 East) =
       Some \<lparr> VisitedCells = [(0, 0), (1, 0)], SamplesCollected = [], Battery = 0,
              FinalPosition = ((1, 0), East) \<rparr>"
    by (simp add: executeCommands_def getResult_def newRobot_def robot_defs pairTerrain_def
          terrain_defs)
  from findPath_adds_costs[OF run] run replay show ?thesis by simp
qed

text \<open>
  Claim C6 says that some search returns a sequence with \<open>E\<close> in it. None does: the
  neighbour of the \<open>E\<close> move is the current key, which has just been put into the
  closed set, so the move is skipped every time.
\<close>

theorem findPath_never_recharges:
  assumes "findPath n t start target initialBattery = Some r"
  shows "E \<notin> set (commands r)"
  using assms by (rule findPath_paths_ok(1))

text \<open>The failing input: with battery 3 every path to the neighbouring cell has a move
  and so drains the battery to 0 or less, and \<open>[E, F]\<close> would keep it positive; the
  search returns \<open>[F]\<close>.\<close>

theorem findPath_never_recharges_witness:
  "findPath (Suc (Suc 0)) pairTerrain (0, 0, East) (1, 0) 3 =
     Some \<lparr> commands = [F], remainingBattery = 6, success = True \<rparr>
   \<and> E \<notin> set (commands \<lparr> commands = [F], remainingBattery = 6, success = True \<rparr>)"
proof -
  note run = findPath_pair_east[of 0]
  from findPath_never_recharges[OF run] run show ?thesis by simp
qed




end
